theory Spec2Isabelle
  imports Main "HOL-Library.Multiset"
begin

section \<open>Python values, exceptions and paths\<close>

text \<open>
  The values that the module stores in the metadata dictionary, and the values that reach
  the \<open>compute\<close> parameter of \<open>_load_image\<close>, which is tested with \<open>if compute:\<close> and so
  only through its truth value.
\<close>

datatype pyval = PyNone | PyBool bool | PyInt int | PyStrList "string list"

fun truthy :: "pyval \<Rightarrow> bool" where
  "truthy PyNone = False"
| "truthy (PyBool b) = b"
| "truthy (PyInt i) = (i \<noteq> 0)"
| "truthy (PyStrList xs) = (xs \<noteq> [])"

fun str_bool :: "bool \<Rightarrow> string" where
  "str_bool True = ''True''"
| "str_bool False = ''False''"

text \<open>
  Exceptions. \<open>UnsupportedFileFormatError\<close> is the one class that \<open>get_reader\<close> catches;
  \<open>IndexError\<close> is raised by \<open>paths[0]\<close> on an empty list, \<open>ValueError\<close> by \<open>str.index\<close> and
  by \<open>da.stack\<close>; every other exception of a collaborator library is \<open>OtherError\<close> with
  the name of its class.
\<close>

datatype error = UnsupportedFileFormatError | IndexError | ValueError | OtherError string

text \<open>\<open>PathLike = Union[str, List[str]]\<close>.\<close>

datatype pathlike = PathStr string | PathList "string list"

text \<open>\<open>paths = [path] if isinstance(path, str) else path\<close>\<close>

fun standardize :: "pathlike \<Rightarrow> string list" where
  "standardize (PathStr p) = [p]"
| "standardize (PathList ps) = ps"

text \<open>\<open>paths[0]\<close>\<close>

fun first :: "'b list \<Rightarrow> error + 'b" where
  "first [] = Inl IndexError"
| "first (x # xs) = Inr x"

text \<open>\<open>s.index(c)\<close>: the position of the first occurrence, \<open>ValueError\<close> when there is none.\<close>

fun py_index :: "'b list \<Rightarrow> 'b \<Rightarrow> error + nat" where
  "py_index [] c = Inl ValueError"
| "py_index (x # xs) c =
     (if x = c then Inr 0
      else case py_index xs c of Inl e \<Rightarrow> Inl e | Inr k \<Rightarrow> Inr (Suc k))"

section \<open>Arrays\<close>

text \<open>
  An array is its shape, its element type, its elements in row-major order, and whether it
  is a deferred (dask) array or a realised (numpy) one. The elements are of an arbitrary
  type \<open>'a\<close>; the rounding of a value to half precision is a parameter of the environment.
\<close>

datatype dtype = Float16 | Float32 | Float64 | UInt8 | UInt16

record 'a ndarray =
  shape :: "nat list"
  dtype :: dtype
  flat :: "'a list"
  lazy :: bool

text \<open>\<open>a.astype(t)\<close>\<close>

definition astype :: "('a \<Rightarrow> 'a) \<Rightarrow> dtype \<Rightarrow> 'a ndarray \<Rightarrow> 'a ndarray" where
  "astype conv t a = a\<lparr>dtype := t, flat := map conv (flat a)\<rparr>"

text \<open>\<open>np.squeeze(a)\<close>: every axis of length one is removed, the elements stay.\<close>

definition squeeze :: "'a ndarray \<Rightarrow> 'a ndarray" where
  "squeeze a = a\<lparr>shape := filter (\<lambda>d. d \<noteq> 1) (shape a)\<rparr>"

text \<open>
  \<open>da.stack(arrays)\<close> along a new leading axis: \<open>ValueError\<close> for no array and for arrays
  of different shapes; the result is a deferred array with the element type of the first
  array (the module stacks arrays of one element type).
\<close>

definition da_stack :: "'a ndarray list \<Rightarrow> error + 'a ndarray" where
  "da_stack arrs =
     (case arrs of
        [] \<Rightarrow> Inl ValueError
      | a # rest \<Rightarrow>
          if list_ex (\<lambda>b. shape b \<noteq> shape a) rest then Inl ValueError
          else Inr \<lparr>shape = length arrs # shape a, dtype = dtype a,
                    flat = concat (map flat arrs), lazy = True\<rparr>)"

text \<open>\<open>data.compute()\<close>\<close>

definition compute_array :: "'a ndarray \<Rightarrow> 'a ndarray" where
  "compute_array a = a\<lparr>lazy := False\<rparr>"

text \<open>\<open>a[i]\<close>: the sub-array at position \<open>i\<close> of the leading axis.\<close>

definition plane :: "'a ndarray \<Rightarrow> nat \<Rightarrow> 'a ndarray" where
  "plane a i =
     a\<lparr>shape := tl (shape a),
       flat := take (prod_list (tl (shape a))) (drop (i * prod_list (tl (shape a))) (flat a))\<rparr>"

text \<open>An array holds as many elements as its shape says.\<close>

definition wf_array :: "'a ndarray \<Rightarrow> bool" where
  "wf_array a = (length (flat a) = prod_list (shape a))"

section \<open>The image library and the execution client\<close>

text \<open>\<open>aicsimageio.constants.Dimensions\<close>: one character for each dimension.\<close>

definition Dimensions_SpatialY :: char where "Dimensions_SpatialY = CHR ''Y''"
definition Dimensions_SpatialX :: char where "Dimensions_SpatialX = CHR ''X''"
definition Dimensions_Channel :: char where "Dimensions_Channel = CHR ''C''"

text \<open>What the module reads from a constructed reader.\<close>

record 'a reader =
  dims :: string
  get_channel_names :: "string list"
  dask_data :: "'a ndarray"

record 'a LoadResult =
  data :: "'a ndarray"
  index :: nat
  channel_axis :: "nat option"
  channel_names :: "string list option"

text \<open>
  The collaborators are parameters: format detection, the construction of a reader of
  class \<open>'rc\<close> for a path with an optional \<open>chunk_by_dims\<close>, the conversion of an element to
  half precision, the start of the cluster for a \<open>processes\<close> flag, and the order in which
  the results of the tasks are handed back.
\<close>

record ('rc, 'a) env =
  determine_reader :: "string \<Rightarrow> error + 'rc"
  ReaderClass_init :: "'rc \<Rightarrow> string \<Rightarrow> string option \<Rightarrow> error + 'a reader"
  float16 :: "'a \<Rightarrow> 'a"
  cluster_and_client :: "bool \<Rightarrow> error option"
  gather_order :: "'a LoadResult list \<Rightarrow> 'a LoadResult list"

text \<open>What a call does besides returning: the trace of its effects.\<close>

datatype 'rc event =
    Print string
  | ClusterStart bool
  | ReaderInit 'rc string "string option"
  | ClusterStop

text \<open>
  \<open>client.gather(futures)\<close>: the exception of a failed task is raised, otherwise the
  results come back in the order the environment chooses.
\<close>

fun collect :: "(error + 'b) list \<Rightarrow> error + 'b list" where
  "collect [] = Inr []"
| "collect (Inl e # rs) = Inl e"
| "collect (Inr x # rs) = (case collect rs of Inl e \<Rightarrow> Inl e | Inr xs \<Rightarrow> Inr (x # xs))"

definition client_gather ::
  "('rc, 'a) env \<Rightarrow> (error + 'a LoadResult) list \<Rightarrow> error + 'a LoadResult list" where
  "client_gather env futures =
     (case collect futures of Inl e \<Rightarrow> Inl e | Inr rs \<Rightarrow> Inr (gather_order env rs))"

section \<open>core.py\<close>

text \<open>\<open>_load_image(path, ReaderClass, index, compute)\<close>\<close>

definition load_image ::
  "('rc, 'a) env \<Rightarrow> string \<Rightarrow> 'rc \<Rightarrow> nat \<Rightarrow> pyval \<Rightarrow> 'rc event \<times> (error + 'a LoadResult)" where
  "load_image env path ReaderClass idx compute =
     (let chunk_by_dims =
            (if truthy compute then None
             else Some [Dimensions_SpatialY, Dimensions_SpatialX])
      in (ReaderInit ReaderClass path chunk_by_dims,
          case ReaderClass_init env ReaderClass path chunk_by_dims of
            Inl e \<Rightarrow> Inl e
          | Inr reader \<Rightarrow>
              (case (if Dimensions_Channel \<in> set (dims reader)
                     then map_sum id Some (py_index (dims reader) Dimensions_Channel)
                     else Inr None) of
                 Inl e \<Rightarrow> Inl e
               | Inr channel_axis' \<Rightarrow>
                   let channel_names' =
                         (if channel_axis' \<noteq> None then Some (get_channel_names reader)
                          else None)
                   in Inr \<lparr>data = squeeze (astype (float16 env) Float16 (dask_data reader)),
                           index = idx,
                           channel_axis = channel_axis',
                           channel_names = channel_names'\<rparr>)))"

text \<open>
  The four argument lists of \<open>client.map\<close>, zipped. The last one is
  \<open>[compute for compute in range(len(paths))]\<close>: its elements are the integers of the range.
\<close>

definition map_args :: "string list \<Rightarrow> 'rc \<Rightarrow> (string \<times> 'rc \<times> nat \<times> pyval) list" where
  "map_args paths ReaderClass =
     zip paths
       (zip (map (\<lambda>i. ReaderClass) [0..<length paths])
         (zip (map (\<lambda>i. i) [0..<length paths])
              (map (\<lambda>compute. PyInt (int compute)) [0..<length paths])))"

text \<open>\<open>reader_function(path, compute, processes)\<close>\<close>

definition reader_function ::
  "('rc, 'a) env \<Rightarrow> pathlike \<Rightarrow> bool \<Rightarrow> bool
     \<Rightarrow> 'rc event list \<times> (error + ('a ndarray \<times> (string \<rightharpoonup> pyval)) list)" where
  "reader_function env path compute processes =
     (let banner = Print (''Reader will load image in-memory: '' @ str_bool compute);
          paths = standardize path
      in case first paths of
           Inl e \<Rightarrow> ([banner], Inl e)
         | Inr p0 \<Rightarrow>
        (case determine_reader env p0 of
           Inl e \<Rightarrow> ([banner], Inl e)
         | Inr ReaderClass \<Rightarrow>
        (case cluster_and_client env processes of
           Some e \<Rightarrow> ([banner, ClusterStart processes], Inl e)
         | None \<Rightarrow>
             let futures = map (\<lambda>(p, rc, i, c). load_image env p rc i c)
                               (map_args paths ReaderClass)
             in (banner # ClusterStart processes # map fst futures @ [ClusterStop],
                 case client_gather env (map snd futures) of
                   Inl e \<Rightarrow> Inl e
                 | Inr gathered \<Rightarrow>
                     let results = sort_key index gathered
                     in case da_stack (map data results) of
                          Inl e \<Rightarrow> Inl e
                        | Inr stacked \<Rightarrow>
                            let data' = (if compute then compute_array stacked else stacked);
                                channel_names' = channel_names (results ! 0);
                                channel_axis' = map_option (\<lambda>k. k + 1) (channel_axis (results ! 0));
                                meta = Map.empty(''name'' \<mapsto> (case channel_names' of
                                                       None \<Rightarrow> PyNone
                                                     | Some ns \<Rightarrow> PyStrList ns),
                                        ''channel_axis'' \<mapsto> (case channel_axis' of
                                                               None \<Rightarrow> PyNone
                                                             | Some k \<Rightarrow> PyInt (int k)),
                                        ''is_pyramid'' \<mapsto> PyBool False,
                                        ''visible'' \<mapsto> PyBool False)
                            in Inr [(data', meta)]))))"

text \<open>\<open>partial(reader_function, compute=compute, processes=processes)\<close> and its call.\<close>

datatype loader = Partial_reader_function (bound_compute: bool) (bound_processes: bool)

definition call_loader ::
  "('rc, 'a) env \<Rightarrow> loader \<Rightarrow> pathlike
     \<Rightarrow> 'rc event list \<times> (error + ('a ndarray \<times> (string \<rightharpoonup> pyval)) list)" where
  "call_loader env f path = reader_function env path (bound_compute f) (bound_processes f)"

text \<open>
  \<open>get_reader(path, compute, processes=True)\<close>: the third argument is optional, \<open>None\<close>
  stands for a call without it.
\<close>

definition get_reader ::
  "('rc, 'a) env \<Rightarrow> pathlike \<Rightarrow> bool \<Rightarrow> bool option \<Rightarrow> error + loader option" where
  "get_reader env path compute processes_arg =
     (let processes = (case processes_arg of None \<Rightarrow> True | Some b \<Rightarrow> b);
          paths = standardize path
      in case first paths of
           Inl e \<Rightarrow> Inl e
         | Inr p0 \<Rightarrow>
             (case determine_reader env p0 of
                Inr ReaderClass \<Rightarrow> Inr (Some (Partial_reader_function compute processes))
              | Inl UnsupportedFileFormatError \<Rightarrow> Inr None
              | Inl e \<Rightarrow> Inl e))"

section \<open>A concrete environment\<close>

text \<open>
  Two stackable TIFF files with a channel dimension, a single plane without one, a text
  file that no reader supports, and a path that does not exist. The results of the tasks
  come back in reverse order.
\<close>

definition img :: "nat list \<Rightarrow> nat list \<Rightarrow> nat ndarray" where
  "img sh xs = \<lparr>shape = sh, dtype = UInt8, flat = xs, lazy = True\<rparr>"

definition tiff_env :: "(string, nat) env" where
  "tiff_env =
     \<lparr>determine_reader =
        (\<lambda>p. if p = ''notes.txt'' then Inl UnsupportedFileFormatError
             else if p = ''missing.tiff'' then Inl (OtherError ''FileNotFoundError'')
             else Inr ''TiffReader''),
      ReaderClass_init =
        (\<lambda>rc p chunk_by_dims.
           if p = ''a.tiff'' then
             Inr \<lparr>dims = ''STCZYX'', get_channel_names = [''dna''],
                  dask_data = img [1, 1, 1, 1, 2, 2] [1, 2, 3, 4]\<rparr>
           else if p = ''b.tiff'' then
             Inr \<lparr>dims = ''STCZYX'', get_channel_names = [''dna''],
                  dask_data = img [1, 1, 1, 1, 2, 2] [5, 6, 7, 8]\<rparr>
           else if p = ''plane.png'' then
             Inr \<lparr>dims = ''YX'', get_channel_names = [],
                  dask_data = img [2, 2] [9, 8, 7, 6]\<rparr>
           else Inl (OtherError ''FileNotFoundError'')),
      float16 = (\<lambda>x. x),
      cluster_and_client = (\<lambda>processes. None),
      gather_order = rev\<rparr>"

text \<open>The metadata of the TIFF files and of the plane.\<close>

definition dna_meta :: "string \<rightharpoonup> pyval" where
  "dna_meta = Map.empty(''name'' \<mapsto> PyStrList [''dna''], ''channel_axis'' \<mapsto> PyInt 3,
                        ''is_pyramid'' \<mapsto> PyBool False, ''visible'' \<mapsto> PyBool False)"

definition plain_meta :: "string \<rightharpoonup> pyval" where
  "plain_meta = Map.empty(''name'' \<mapsto> PyNone, ''channel_axis'' \<mapsto> PyNone,
                          ''is_pyramid'' \<mapsto> PyBool False, ''visible'' \<mapsto> PyBool False)"

text \<open>The result of the task that \<open>client.map\<close> submits for position \<open>i\<close>.\<close>

abbreviation task_result ::
  "('rc, 'a) env \<Rightarrow> string list \<Rightarrow> 'rc \<Rightarrow> nat \<Rightarrow> error + 'a LoadResult" where
  "task_result env paths rc i \<equiv> snd (load_image env (paths ! i) rc i (PyInt (int i)))"

section \<open>Auxiliary facts\<close>

lemma map_args_eq:
  "map_args paths rc = map (\<lambda>i. (paths ! i, rc, i, PyInt (int i))) [0..<length paths]"
  by (rule nth_equalityI) (simp_all add: map_args_def)

lemma futures_snd:
  "map snd (map (\<lambda>(p, rc, i, c). load_image env p rc i c) (map_args paths rc))
     = map (task_result env paths rc) [0..<length paths]"
  by (simp add: map_args_eq comp_def)

text \<open>
  The reader of position \<open>i\<close> is constructed without \<open>chunk_by_dims\<close> exactly when
  \<open>i\<close> is not zero, whatever the \<open>compute\<close> argument of \<open>reader_function\<close> is.
\<close>

lemma futures_fst:
  "map fst (map (\<lambda>(p, rc, i, c). load_image env p rc i c) (map_args paths rc))
     = map (\<lambda>i. ReaderInit rc (paths ! i)
                   (if i \<noteq> 0 then None else Some [Dimensions_SpatialY, Dimensions_SpatialX]))
           [0..<length paths]"
  by (simp add: map_args_eq comp_def load_image_def Let_def)

lemma first_Inr: "first xs = Inr x \<longleftrightarrow> xs \<noteq> [] \<and> x = hd xs"
  by (cases xs) auto

lemma collect_Inr: "collect xs = Inr ys \<Longrightarrow> xs = map Inr ys"
proof (induction xs arbitrary: ys)
  case Nil
  then show ?case by simp
next
  case (Cons x xs)
  then show ?case
    by (cases x) (auto split: sum.splits)
qed

lemma load_image_index: "snd (load_image env p rc i c) = Inr r \<Longrightarrow> index r = i"
  by (auto simp: load_image_def Let_def split: sum.splits if_splits)

text \<open>Sorting on a key restores the one list that is sorted and distinct on that key.\<close>

lemma sort_key_restores:
  assumes "mset ys = mset xs" and "sorted (map f xs)" and "distinct (map f xs)"
  shows "sort_key f ys = xs"
proof (rule map_sorted_distinct_set_unique [where f = f])
  have s: "set ys = set xs" using assms(1) by (rule mset_eq_setD)
  show "set (sort_key f ys) = set xs" using s by simp
  show "inj_on f (set (sort_key f ys) \<union> set xs)"
    using s assms(3) by (simp add: distinct_map)
  show "sorted (map f (sort_key f ys))" by simp
  have "distinct (map f ys)"
    using assms(1,3) by (metis distinct_map mset_eq_setD mset_eq_imp_distinct_iff)
  then show "distinct (map f (sort_key f ys))"
    by (simp add: distinct_map)
  show "sorted (map f xs)" "distinct (map f xs)" using assms by simp_all
qed

text \<open>What a call of \<open>reader_function\<close> that returns has gone through.\<close>

lemma reader_function_success:
  assumes "reader_function env path compute processes = (tr, Inr res)"
  shows "\<exists>rc outs stacked.
           standardize path \<noteq> []
         \<and> determine_reader env (hd (standardize path)) = Inr rc
         \<and> cluster_and_client env processes = None
         \<and> map (task_result env (standardize path) rc) [0..<length (standardize path)]
             = map Inr outs
         \<and> da_stack (map data (sort_key index (gather_order env outs))) = Inr stacked
         \<and> res = [(if compute then compute_array stacked else stacked,
                    Map.empty(''name'' \<mapsto>
                        (case channel_names (sort_key index (gather_order env outs) ! 0) of
                           None \<Rightarrow> PyNone | Some ns \<Rightarrow> PyStrList ns),
                      ''channel_axis'' \<mapsto>
                        (case map_option (\<lambda>k. k + 1)
                                (channel_axis (sort_key index (gather_order env outs) ! 0)) of
                           None \<Rightarrow> PyNone | Some k \<Rightarrow> PyInt (int k)),
                      ''is_pyramid'' \<mapsto> PyBool False,
                      ''visible'' \<mapsto> PyBool False))]"
proof -
  let ?paths = "standardize path"
  from assms obtain p0 where p0: "first ?paths = Inr p0"
    by (auto simp: reader_function_def Let_def split: sum.split_asm)
  from assms p0 obtain rc where rc: "determine_reader env p0 = Inr rc"
    by (auto simp: reader_function_def Let_def split: sum.split_asm)
  from assms p0 rc have cl: "cluster_and_client env processes = None"
    by (auto simp: reader_function_def Let_def split: option.split_asm)
  from assms p0 rc cl obtain gathered where
    g: "client_gather env (map (task_result env ?paths rc) [0..<length ?paths]) = Inr gathered"
    by (auto simp: reader_function_def Let_def futures_snd simp del: map_map
        split: sum.split_asm)
  from g obtain outs where
    outs: "map (task_result env ?paths rc) [0..<length ?paths] = map Inr outs"
    and gathered: "gathered = gather_order env outs"
    by (auto simp: client_gather_def split: sum.split_asm dest: collect_Inr)
  from assms p0 rc cl g obtain stacked where
    st: "da_stack (map data (sort_key index gathered)) = Inr stacked"
    by (auto simp: reader_function_def Let_def futures_snd simp del: map_map
        split: sum.split_asm)
  from assms p0 rc cl g st have
    "res = [(if compute then compute_array stacked else stacked,
             Map.empty(''name'' \<mapsto>
                 (case channel_names (sort_key index gathered ! 0) of
                    None \<Rightarrow> PyNone | Some ns \<Rightarrow> PyStrList ns),
               ''channel_axis'' \<mapsto>
                 (case map_option (\<lambda>k. k + 1) (channel_axis (sort_key index gathered ! 0)) of
                    None \<Rightarrow> PyNone | Some k \<Rightarrow> PyInt (int k)),
               ''is_pyramid'' \<mapsto> PyBool False,
               ''visible'' \<mapsto> PyBool False))]"
    by (simp add: reader_function_def Let_def futures_snd del: map_map)
  with p0 rc cl outs gathered st show ?thesis
    by (auto simp: first_Inr)
qed

text \<open>The cluster is started with the \<open>processes\<close> flag of the call and with no other.\<close>

lemma cluster_flag_of_trace:
  "ClusterStart b \<in> set (fst (reader_function env path compute processes)) \<Longrightarrow> b = processes"
  by (auto simp: reader_function_def Let_def futures_fst simp del: map_map
      split: sum.split_asm option.split_asm)

lemma cluster_started:
  assumes "standardize path = p0 # rest" and "determine_reader env p0 = Inr rc"
  shows "ClusterStart processes \<in> set (fst (reader_function env path compute processes))"
  using assms by (simp add: reader_function_def Let_def split: option.split)

lemma returns_pair:
  "snd (reader_function env path compute processes) = Inr res
     \<Longrightarrow> reader_function env path compute processes
           = (fst (reader_function env path compute processes), Inr res)"
  by (metis prod.collapse)

text \<open>\<open>str.index\<close> finds the first occurrence.\<close>

lemma py_index_first:
  "k < length xs \<Longrightarrow> xs ! k = c \<Longrightarrow> \<forall>j<k. xs ! j \<noteq> c \<Longrightarrow> py_index xs c = Inr k"
proof (induction xs arbitrary: k)
  case Nil
  then show ?case by simp
next
  case (Cons x xs)
  show ?case
  proof (cases k)
    case 0
    with Cons.prems show ?thesis by simp
  next
    case (Suc m)
    with Cons.prems have "x \<noteq> c" by auto
    moreover have "py_index xs c = Inr m"
    proof (rule Cons.IH)
      show "m < length xs" "xs ! m = c" using Cons.prems Suc by simp_all
      show "\<forall>j<m. xs ! j \<noteq> c"
      proof (intro allI impI)
        fix j assume "j < m"
        then have "Suc j < k" using Suc by simp
        with Cons.prems(3) have "(x # xs) ! Suc j \<noteq> c" by blast
        then show "xs ! j \<noteq> c" by simp
      qed
    qed
    ultimately show ?thesis using Suc by simp
  qed
qed

lemma py_index_member: "c \<in> set xs \<Longrightarrow> \<exists>k. py_index xs c = Inr k"
  by (induction xs) auto

text \<open>The result of \<open>_load_image\<close>, without the trace.\<close>

lemma snd_load_image:
  "snd (load_image env p rc i c) =
     (case ReaderClass_init env rc p
             (if truthy c then None else Some [Dimensions_SpatialY, Dimensions_SpatialX]) of
        Inl e \<Rightarrow> Inl e
      | Inr reader \<Rightarrow>
          (if Dimensions_Channel \<in> set (dims reader)
           then (case py_index (dims reader) Dimensions_Channel of
                   Inl e \<Rightarrow> Inl e
                 | Inr k \<Rightarrow>
                     Inr \<lparr>data = squeeze (astype (float16 env) Float16 (dask_data reader)),
                          index = i, channel_axis = Some k,
                          channel_names = Some (get_channel_names reader)\<rparr>)
           else Inr \<lparr>data = squeeze (astype (float16 env) Float16 (dask_data reader)),
                     index = i, channel_axis = None, channel_names = None\<rparr>))"
  by (simp add: load_image_def Let_def split: sum.split)

lemma load_image_Inr:
  assumes "snd (load_image env p rc i c) = Inr r"
  shows "\<exists>reader.
           ReaderClass_init env rc p
             (if truthy c then None else Some [Dimensions_SpatialY, Dimensions_SpatialX])
             = Inr reader
         \<and> data r = squeeze (astype (float16 env) Float16 (dask_data reader))
         \<and> (Dimensions_Channel \<notin> set (dims reader)
              \<longrightarrow> channel_axis r = None \<and> channel_names r = None)
         \<and> (Dimensions_Channel \<in> set (dims reader)
              \<longrightarrow> py_index (dims reader) Dimensions_Channel = Inr (the (channel_axis r))
                \<and> channel_axis r \<noteq> None
                \<and> channel_names r = Some (get_channel_names reader))"
  using assms unfolding snd_load_image
  by (auto split: sum.split_asm if_split_asm)

text \<open>The first task constructs its reader with \<open>chunk_by_dims\<close>, its argument being \<open>0\<close>.\<close>

lemma first_task_reader:
  assumes "task_result env paths rc 0 = Inr r" and "paths \<noteq> []"
  shows "\<exists>reader.
           ReaderClass_init env rc (hd paths) (Some [Dimensions_SpatialY, Dimensions_SpatialX])
             = Inr reader
         \<and> data r = squeeze (astype (float16 env) Float16 (dask_data reader))
         \<and> (Dimensions_Channel \<notin> set (dims reader)
              \<longrightarrow> channel_axis r = None \<and> channel_names r = None)
         \<and> (Dimensions_Channel \<in> set (dims reader)
              \<longrightarrow> py_index (dims reader) Dimensions_Channel = Inr (the (channel_axis r))
                \<and> channel_axis r \<noteq> None
                \<and> channel_names r = Some (get_channel_names reader))"
  using load_image_Inr [OF assms(1)] assms(2) by (simp add: hd_conv_nth)

lemma prod_list_squeeze: "prod_list (filter (\<lambda>d. d \<noteq> Suc 0) sh) = prod_list sh"
  by (induction sh) simp_all

lemma load_image_wf:
  assumes r: "snd (load_image env p rc i c) = Inr r"
    and wf: "\<And>rc p ch reader. ReaderClass_init env rc p ch = Inr reader
               \<Longrightarrow> wf_array (dask_data reader)"
  shows "wf_array (data r)" and "dtype (data r) = Float16"
proof -
  from load_image_Inr [OF r] obtain reader ch where
    rd: "ReaderClass_init env rc p ch = Inr reader"
    and d: "data r = squeeze (astype (float16 env) Float16 (dask_data reader))"
    by blast
  from wf [OF rd] d show "wf_array (data r)"
    by (simp add: wf_array_def squeeze_def astype_def prod_list_squeeze)
  from d show "dtype (data r) = Float16"
    by (simp add: squeeze_def astype_def)
qed

text \<open>What \<open>da.stack\<close> returns when it returns.\<close>

lemma da_stack_Inr:
  assumes "da_stack arrs = Inr a"
  shows "arrs \<noteq> []" and "\<forall>b\<in>set arrs. shape b = shape (hd arrs)"
    and "shape a = length arrs # shape (hd arrs)" and "dtype a = dtype (hd arrs)"
    and "flat a = concat (map flat arrs)" and "lazy a"
  using assms
  by (auto simp: da_stack_def list_ex_iff split: list.split_asm if_split_asm)

text \<open>The slice of a concatenation of lists of one length.\<close>

lemma concat_plane:
  "\<forall>xs\<in>set xss. length xs = m \<Longrightarrow> i < length xss
     \<Longrightarrow> take m (drop (i * m) (concat xss)) = xss ! i"
proof (induction xss arbitrary: i)
  case Nil
  then show ?case by simp
next
  case (Cons xs xss)
  show ?case
  proof (cases i)
    case 0
    with Cons.prems show ?thesis by simp
  next
    case (Suc j)
    have len: "length xs = m" using Cons.prems by simp
    have "drop (i * m) (concat (xs # xss)) = drop (j * m) (concat xss)"
      using Suc len by (simp add: add.commute)
    moreover have "take m (drop (j * m) (concat xss)) = xss ! j"
      using Cons.IH [of j] Cons.prems Suc by simp
    ultimately show ?thesis using Suc by simp
  qed
qed

text \<open>
  When the results are gathered as a permutation, sorting on \<open>index\<close> gives them back in
  the order of submission.
\<close>

lemma sorted_results:
  assumes outs: "map (task_result env paths rc) [0..<length paths] = map Inr outs"
    and perm: "mset (gather_order env outs) = mset outs"
  shows "length outs = length paths"
    and "\<forall>i<length paths. task_result env paths rc i = Inr (outs ! i)"
    and "sort_key index (gather_order env outs) = outs"
proof -
  from outs show len: "length outs = length paths"
    using map_eq_imp_length_eq [OF outs] by simp
  show nth: "\<forall>i<length paths. task_result env paths rc i = Inr (outs ! i)"
  proof (intro allI impI)
    fix i assume i: "i < length paths"
    from outs have "map (task_result env paths rc) [0..<length paths] ! i = map Inr outs ! i"
      by simp
    with i len show "task_result env paths rc i = Inr (outs ! i)" by simp
  qed
  have "map index outs = [0..<length paths]"
  proof (rule nth_equalityI)
    show "length (map index outs) = length [0..<length paths]" using len by simp
  next
    fix i assume "i < length (map index outs)"
    then have i: "i < length paths" using len by simp
    with nth have "index (outs ! i) = i" by (auto dest: load_image_index)
    with i len show "map index outs ! i = [0..<length paths] ! i" by simp
  qed
  then have "sorted (map index outs)" "distinct (map index outs)" by simp_all
  with perm show "sort_key index (gather_order env outs) = outs"
    by (rule sort_key_restores)
qed

lemma reader_function_success_ordered:
  assumes ok: "reader_function env path compute processes = (tr, Inr res)"
    and perm: "\<And>rs. mset (gather_order env rs) = mset rs"
  shows "\<exists>rc outs stacked.
           standardize path \<noteq> []
         \<and> determine_reader env (hd (standardize path)) = Inr rc
         \<and> length outs = length (standardize path)
         \<and> (\<forall>i<length (standardize path). task_result env (standardize path) rc i = Inr (outs ! i))
         \<and> da_stack (map data outs) = Inr stacked
         \<and> res = [(if compute then compute_array stacked else stacked,
                    Map.empty(''name'' \<mapsto>
                        (case channel_names (outs ! 0) of
                           None \<Rightarrow> PyNone | Some ns \<Rightarrow> PyStrList ns),
                      ''channel_axis'' \<mapsto>
                        (case map_option (\<lambda>k. k + 1) (channel_axis (outs ! 0)) of
                           None \<Rightarrow> PyNone | Some k \<Rightarrow> PyInt (int k)),
                      ''is_pyramid'' \<mapsto> PyBool False,
                      ''visible'' \<mapsto> PyBool False))]"
proof -
  from reader_function_success [OF ok] obtain rc outs stacked where
    ne: "standardize path \<noteq> []"
    and rc: "determine_reader env (hd (standardize path)) = Inr rc"
    and outs: "map (task_result env (standardize path) rc) [0..<length (standardize path)]
                 = map Inr outs"
    and st: "da_stack (map data (sort_key index (gather_order env outs))) = Inr stacked"
    and res: "res = [(if compute then compute_array stacked else stacked,
                    Map.empty(''name'' \<mapsto>
                        (case channel_names (sort_key index (gather_order env outs) ! 0) of
                           None \<Rightarrow> PyNone | Some ns \<Rightarrow> PyStrList ns),
                      ''channel_axis'' \<mapsto>
                        (case map_option (\<lambda>k. k + 1)
                                (channel_axis (sort_key index (gather_order env outs) ! 0)) of
                           None \<Rightarrow> PyNone | Some k \<Rightarrow> PyInt (int k)),
                      ''is_pyramid'' \<mapsto> PyBool False,
                      ''visible'' \<mapsto> PyBool False))]"
    by blast
  note sr = sorted_results [OF outs perm]
  from st res show ?thesis
    unfolding sr(3) using ne rc sr(1,2) by blast
qed

text \<open>A call that returns, with the results gathered as a permutation.\<close>

lemma reader_function_returns:
  assumes ok: "snd (reader_function env path compute processes) = Inr res"
    and perm: "\<And>rs. mset (gather_order env rs) = mset rs"
  shows "\<exists>rc outs stacked meta.
           standardize path \<noteq> []
         \<and> determine_reader env (hd (standardize path)) = Inr rc
         \<and> length outs = length (standardize path)
         \<and> (\<forall>i<length (standardize path). task_result env (standardize path) rc i = Inr (outs ! i))
         \<and> da_stack (map data outs) = Inr stacked
         \<and> res = [(if compute then compute_array stacked else stacked, meta)]
         \<and> meta ''name'' = Some (case channel_names (outs ! 0) of
                                    None \<Rightarrow> PyNone | Some ns \<Rightarrow> PyStrList ns)
         \<and> meta ''channel_axis'' = Some (case channel_axis (outs ! 0) of
                                    None \<Rightarrow> PyNone | Some k \<Rightarrow> PyInt (int k + 1))"
proof -
  from reader_function_success_ordered [OF returns_pair [OF ok] perm]
  obtain rc outs stacked where
    facts: "standardize path \<noteq> []"
      "determine_reader env (hd (standardize path)) = Inr rc"
      "length outs = length (standardize path)"
      "\<forall>i<length (standardize path). task_result env (standardize path) rc i = Inr (outs ! i)"
      "da_stack (map data outs) = Inr stacked"
    and res: "res = [(if compute then compute_array stacked else stacked,
                    Map.empty(''name'' \<mapsto>
                        (case channel_names (outs ! 0) of
                           None \<Rightarrow> PyNone | Some ns \<Rightarrow> PyStrList ns),
                      ''channel_axis'' \<mapsto>
                        (case map_option (\<lambda>k. k + 1) (channel_axis (outs ! 0)) of
                           None \<Rightarrow> PyNone | Some k \<Rightarrow> PyInt (int k)),
                      ''is_pyramid'' \<mapsto> PyBool False,
                      ''visible'' \<mapsto> PyBool False))]"
    by blast
  define meta where
    "meta = Map.empty(''name'' \<mapsto>
                        (case channel_names (outs ! 0) of
                           None \<Rightarrow> PyNone | Some ns \<Rightarrow> PyStrList ns),
                      ''channel_axis'' \<mapsto>
                        (case map_option (\<lambda>k. k + 1) (channel_axis (outs ! 0)) of
                           None \<Rightarrow> PyNone | Some k \<Rightarrow> PyInt (int k)),
                      ''is_pyramid'' \<mapsto> PyBool False,
                      ''visible'' \<mapsto> PyBool False)"
  have r: "res = [(if compute then compute_array stacked else stacked, meta)]"
    using res by (simp only: meta_def)
  have n: "meta ''name'' = Some (case channel_names (outs ! 0) of
                                    None \<Rightarrow> PyNone | Some ns \<Rightarrow> PyStrList ns)"
    by (simp add: meta_def)
  have a: "meta ''channel_axis'' = Some (case channel_axis (outs ! 0) of
                                    None \<Rightarrow> PyNone | Some k \<Rightarrow> PyInt (int k + 1))"
    by (cases "channel_axis (outs ! 0)") (simp_all add: meta_def)
  from facts r n a show ?thesis by blast
qed

text \<open>Runs in the concrete environment.\<close>

lemmas run_defs = reader_function_def tiff_env_def Let_def map_args_def load_image_def
  client_gather_def da_stack_def img_def squeeze_def astype_def compute_array_def
  Dimensions_Channel_def Dimensions_SpatialY_def Dimensions_SpatialX_def dna_meta_def plain_meta_def

lemma run_single:
  "snd (reader_function tiff_env (PathStr ''a.tiff'') True False)
     = Inr [(\<lparr>shape = [1, 2, 2], dtype = Float16, flat = [1, 2, 3, 4], lazy = False\<rparr>, dna_meta)]"
  by (simp add: run_defs)

lemma run_pair:
  "snd (reader_function tiff_env (PathList [''a.tiff'', ''b.tiff'']) False True)
     = Inr [(\<lparr>shape = [2, 2, 2], dtype = Float16, flat = [1, 2, 3, 4, 5, 6, 7, 8], lazy = True\<rparr>,
             dna_meta)]"
  by (simp add: run_defs)

lemma run_plane:
  "snd (reader_function tiff_env (PathStr ''plane.png'') False False)
     = Inr [(\<lparr>shape = [1, 2, 2], dtype = Float16, flat = [9, 8, 7, 6], lazy = True\<rparr>, plain_meta)]"
  by (simp add: run_defs)

lemma tiff_env_perm: "mset (gather_order tiff_env rs) = mset rs"
  by (simp add: tiff_env_def)

lemma tiff_env_wf: "ReaderClass_init tiff_env rc p ch = Inr reader \<Longrightarrow> wf_array (dask_data reader)"
  by (auto simp: tiff_env_def wf_array_def img_def split: if_split_asm)

section \<open>The claims\<close>

text \<open>
  C10. For an empty list of paths neither \<open>get_reader\<close> nor \<open>reader_function\<close> returns
  normally: both read \<open>paths[0]\<close>, so the call ends with \<open>IndexError\<close>, neither with the
  absence signal nor with an empty result. In \<open>get_reader\<close> the access is inside the
  \<open>try\<close>, whose handler does not catch \<open>IndexError\<close>.
\<close>

theorem empty_path_list_raises:
  "get_reader env (PathList []) compute processes_arg = Inl IndexError
   \<and> snd (reader_function env (PathList []) compute processes) = Inl IndexError"
  by (simp add: get_reader_def reader_function_def)

theorem empty_path_list_raises_witness:
  "get_reader tiff_env (PathList []) True None = Inl IndexError
   \<and> snd (reader_function tiff_env (PathList []) True False) = Inl IndexError"
  using empty_path_list_raises [of tiff_env True None False] by simp

text \<open>
  C9. When \<open>get_reader\<close> is called without a \<open>processes\<close> argument and returns a loader,
  that is the call with \<open>processes=True\<close>: the loader is \<open>reader_function\<close> bound to the
  caller's \<open>compute\<close> and to \<open>processes = True\<close>, calling it on the probed path starts a
  cluster of worker processes, and no call of it starts a cluster of threads.
\<close>

theorem get_reader_processes_default:
  assumes "get_reader env path compute None = Inr (Some f)"
  shows "get_reader env path compute None = get_reader env path compute (Some True)
       \<and> f = Partial_reader_function compute True
       \<and> ClusterStart True \<in> set (fst (call_loader env f path))
       \<and> ClusterStart False \<notin> set (fst (call_loader env f path'))"
proof -
  from assms obtain p0 rc where p0: "first (standardize path) = Inr p0"
    and rc: "determine_reader env p0 = Inr rc"
    and f: "f = Partial_reader_function compute True"
    by (auto simp: get_reader_def Let_def split: sum.split_asm error.split_asm)
  from p0 obtain rest where "standardize path = p0 # rest"
    by (cases "standardize path") auto
  then have "ClusterStart True \<in> set (fst (call_loader env f path))"
    using rc f by (simp add: call_loader_def cluster_started)
  moreover have "ClusterStart False \<notin> set (fst (call_loader env f path'))"
    using f cluster_flag_of_trace [of False env path' compute True]
    by (auto simp: call_loader_def)
  moreover have "get_reader env path compute None = get_reader env path compute (Some True)"
    by (simp add: get_reader_def)
  ultimately show ?thesis using f by simp
qed

theorem get_reader_processes_default_witness:
  "get_reader tiff_env (PathStr ''a.tiff'') False None
     = Inr (Some (Partial_reader_function False True))
   \<and> ClusterStart True
       \<in> set (fst (call_loader tiff_env (Partial_reader_function False True) (PathStr ''a.tiff'')))
   \<and> ClusterStart False
       \<notin> set (fst (call_loader tiff_env (Partial_reader_function False True)
                      (PathList [''a.tiff'', ''b.tiff''])))"
proof -
  have h: "get_reader tiff_env (PathStr ''a.tiff'') False None
             = Inr (Some (Partial_reader_function False True))"
    by code_simp
  show ?thesis
    using h get_reader_processes_default [OF h, of "PathList [''a.tiff'', ''b.tiff'']"]
    by simp
qed

text \<open>
  C6. When format detection on the first path raises \<open>UnsupportedFileFormatError\<close> (no
  registered reader recognises it), \<open>get_reader\<close> returns \<open>None\<close>. When it finds a reader
  class, \<open>get_reader\<close> returns a callable: \<open>reader_function\<close> with the caller's
  \<open>compute\<close> and \<open>processes\<close> flags bound.
\<close>

theorem get_reader_probe:
  "(standardize path = p0 # rest \<and> determine_reader env p0 = Inl UnsupportedFileFormatError
      \<longrightarrow> get_reader env path compute processes_arg = Inr None)
   \<and> (standardize path = p0 # rest \<and> determine_reader env p0 = Inr rc
      \<longrightarrow> get_reader env path compute (Some processes)
            = Inr (Some (Partial_reader_function compute processes))
          \<and> call_loader env (Partial_reader_function compute processes) path'
            = reader_function env path' compute processes)"
  by (simp add: get_reader_def call_loader_def)

theorem get_reader_probe_witness:
  "get_reader tiff_env (PathStr ''notes.txt'') True None = Inr None
   \<and> get_reader tiff_env (PathList [''a.tiff'', ''b.tiff'']) True (Some False)
       = Inr (Some (Partial_reader_function True False))
   \<and> call_loader tiff_env (Partial_reader_function True False) (PathList [''a.tiff'', ''b.tiff''])
       = reader_function tiff_env (PathList [''a.tiff'', ''b.tiff'']) True False"
proof -
  have a: "standardize (PathStr ''notes.txt'') = ''notes.txt'' # []"
    and b: "determine_reader tiff_env ''notes.txt'' = Inl UnsupportedFileFormatError"
    and c: "standardize (PathList [''a.tiff'', ''b.tiff'']) = ''a.tiff'' # [''b.tiff'']"
    and d: "determine_reader tiff_env ''a.tiff'' = Inr ''TiffReader''"
    by (simp_all add: tiff_env_def)
  show ?thesis
    using a b c d
      get_reader_probe [where path = "PathStr ''notes.txt''" and ?p0.0 = "''notes.txt''"
        and rest = "[]" and env = tiff_env and compute = True and processes_arg = None]
      get_reader_probe [where path = "PathList [''a.tiff'', ''b.tiff'']" and ?p0.0 = "''a.tiff''"
        and rest = "[''b.tiff'']" and env = tiff_env and rc = "''TiffReader''"
        and compute = True and processes = False
        and path' = "PathList [''a.tiff'', ''b.tiff'']"]
    by simp
qed

text \<open>
  C3, as stated, fails: \<open>get_reader\<close> catches \<open>UnsupportedFileFormatError\<close> only. When
  format detection on the first path raises another exception, here \<open>FileNotFoundError\<close> for a
  path that does not exist, the exception reaches the caller and \<open>None\<close> is not returned.
\<close>

theorem get_reader_propagates_other_errors:
  "determine_reader tiff_env ''missing.tiff'' = Inl (OtherError ''FileNotFoundError'')
   \<and> get_reader tiff_env (PathStr ''missing.tiff'') True None
       = Inl (OtherError ''FileNotFoundError'')
   \<and> get_reader tiff_env (PathStr ''missing.tiff'') True None \<noteq> Inr None"
  by (simp add: get_reader_def tiff_env_def)

text \<open>
  C3, amended. For a path list with a first path, an \<open>UnsupportedFileFormatError\<close> raised
  by format detection on that path is converted into \<open>None\<close> and not propagated; every
  other exception raised there reaches the caller unchanged.
\<close>

theorem get_reader_detection_failure:
  assumes "standardize path = p0 # rest" and "determine_reader env p0 = Inl e"
  shows "get_reader env path compute processes_arg
           = (if e = UnsupportedFileFormatError then Inr None else Inl e)"
  using assms by (cases e) (simp_all add: get_reader_def)

theorem get_reader_detection_failure_witness:
  "get_reader tiff_env (PathList [''notes.txt'', ''a.tiff'']) False (Some True) = Inr None
   \<and> get_reader tiff_env (PathStr ''missing.tiff'') False (Some True)
       = Inl (OtherError ''FileNotFoundError'')"
proof -
  have a: "standardize (PathList [''notes.txt'', ''a.tiff'']) = ''notes.txt'' # [''a.tiff'']"
    and b: "determine_reader tiff_env ''notes.txt'' = Inl UnsupportedFileFormatError"
    and c: "standardize (PathStr ''missing.tiff'') = ''missing.tiff'' # []"
    and d: "determine_reader tiff_env ''missing.tiff'' = Inl (OtherError ''FileNotFoundError'')"
    by (simp_all add: tiff_env_def)
  show ?thesis
    using get_reader_detection_failure [OF a b, of False "Some True"]
      get_reader_detection_failure [OF c d, of False "Some True"]
    by simp
qed

text \<open>
  C1 says that every per-path task receives the caller's \<open>compute\<close> flag. The code passes
  \<open>[compute for compute in range(len(paths))]\<close>, the positions, so the task of position
  \<open>0\<close> constructs its reader with \<open>chunk_by_dims\<close> set to Y and X and every later task
  constructs it without, whatever the flag. With \<open>compute = True\<close> and one path the reader is
  constructed with \<open>chunk_by_dims\<close>; with \<open>compute = False\<close> and two paths the second reader
  is constructed without.
\<close>

theorem load_tasks_ignore_compute_flag:
  "fst (reader_function tiff_env (PathStr ''a.tiff'') True False)
     = [Print ''Reader will load image in-memory: True'', ClusterStart False,
        ReaderInit ''TiffReader'' ''a.tiff'' (Some [Dimensions_SpatialY, Dimensions_SpatialX]),
        ClusterStop]
   \<and> fst (reader_function tiff_env (PathList [''a.tiff'', ''b.tiff'']) False False)
     = [Print ''Reader will load image in-memory: False'', ClusterStart False,
        ReaderInit ''TiffReader'' ''a.tiff'' (Some [Dimensions_SpatialY, Dimensions_SpatialX]),
        ReaderInit ''TiffReader'' ''b.tiff'' None, ClusterStop]"
  by (simp add: reader_function_def tiff_env_def Let_def map_args_def load_image_def)

text \<open>
  C8. Every call of \<open>reader_function\<close> that returns gives a list of exactly one pair of an
  array and a metadata dictionary; the keys of the dictionary are exactly \<open>name\<close>,
  \<open>channel_axis\<close>, \<open>is_pyramid\<close> and \<open>visible\<close>; \<open>name\<close> is a list of names or \<open>None\<close>,
  \<open>channel_axis\<close> an integer or \<open>None\<close>, \<open>is_pyramid\<close> and \<open>visible\<close> are \<open>False\<close>.
\<close>

theorem reader_function_single_pair:
  assumes "snd (reader_function env path compute processes) = Inr res"
  shows "\<exists>arr meta. res = [(arr, meta)]
         \<and> dom meta = {''name'', ''channel_axis'', ''is_pyramid'', ''visible''}
         \<and> (meta ''name'' = Some PyNone \<or> (\<exists>ns. meta ''name'' = Some (PyStrList ns)))
         \<and> (meta ''channel_axis'' = Some PyNone \<or> (\<exists>k. meta ''channel_axis'' = Some (PyInt k)))
         \<and> meta ''is_pyramid'' = Some (PyBool False)
         \<and> meta ''visible'' = Some (PyBool False)"
proof -
  from reader_function_success [OF returns_pair [OF assms]] obtain outs stacked where
    res: "res = [(if compute then compute_array stacked else stacked,
                    Map.empty(''name'' \<mapsto>
                        (case channel_names (sort_key index (gather_order env outs) ! 0) of
                           None \<Rightarrow> PyNone | Some ns \<Rightarrow> PyStrList ns),
                      ''channel_axis'' \<mapsto>
                        (case map_option (\<lambda>k. k + 1)
                                (channel_axis (sort_key index (gather_order env outs) ! 0)) of
                           None \<Rightarrow> PyNone | Some k \<Rightarrow> PyInt (int k)),
                      ''is_pyramid'' \<mapsto> PyBool False,
                      ''visible'' \<mapsto> PyBool False))]"
    by blast
  show ?thesis
    unfolding res
    by (cases "channel_names (sort_key index (gather_order env outs) ! 0)";
        cases "channel_axis (sort_key index (gather_order env outs) ! 0)") auto
qed

theorem reader_function_single_pair_witness:
  "snd (reader_function tiff_env (PathStr ''a.tiff'') True False)
     = Inr [(\<lparr>shape = [1, 2, 2], dtype = Float16, flat = [1, 2, 3, 4], lazy = False\<rparr>, dna_meta)]
   \<and> dom dna_meta = {''name'', ''channel_axis'', ''is_pyramid'', ''visible''}
   \<and> dna_meta ''is_pyramid'' = Some (PyBool False)
   \<and> dna_meta ''visible'' = Some (PyBool False)"
  using run_single reader_function_single_pair [OF run_single] by auto

text \<open>
  C7. In every call of \<open>reader_function\<close> that returns, the returned array is realised when
  \<open>compute\<close> is true (\<open>data.compute()\<close> has run on the stacked array) and is the deferred
  array that \<open>da.stack\<close> built when \<open>compute\<close> is false.
\<close>

theorem reader_function_materialize:
  assumes "snd (reader_function env path compute processes) = Inr res"
  shows "\<exists>arr meta. res = [(arr, meta)] \<and> (lazy arr \<longleftrightarrow> \<not> compute)"
proof -
  from reader_function_success [OF returns_pair [OF assms]] obtain outs stacked where
    st: "da_stack (map data (sort_key index (gather_order env outs))) = Inr stacked"
    and res: "res = [(if compute then compute_array stacked else stacked,
                    Map.empty(''name'' \<mapsto>
                        (case channel_names (sort_key index (gather_order env outs) ! 0) of
                           None \<Rightarrow> PyNone | Some ns \<Rightarrow> PyStrList ns),
                      ''channel_axis'' \<mapsto>
                        (case map_option (\<lambda>k. k + 1)
                                (channel_axis (sort_key index (gather_order env outs) ! 0)) of
                           None \<Rightarrow> PyNone | Some k \<Rightarrow> PyInt (int k)),
                      ''is_pyramid'' \<mapsto> PyBool False,
                      ''visible'' \<mapsto> PyBool False))]"
    by blast
  from da_stack_Inr(6) [OF st] res show ?thesis
    by (simp add: compute_array_def)
qed

theorem reader_function_materialize_witness:
  "snd (reader_function tiff_env (PathStr ''a.tiff'') True False)
     = Inr [(\<lparr>shape = [1, 2, 2], dtype = Float16, flat = [1, 2, 3, 4], lazy = False\<rparr>, dna_meta)]
   \<and> \<not> lazy \<lparr>shape = [1, 2, 2], dtype = Float16, flat = [1, 2, 3, 4 :: nat], lazy = False\<rparr>
   \<and> snd (reader_function tiff_env (PathList [''a.tiff'', ''b.tiff'']) False True)
     = Inr [(\<lparr>shape = [2, 2, 2], dtype = Float16, flat = [1, 2, 3, 4, 5, 6, 7, 8], lazy = True\<rparr>,
             dna_meta)]
   \<and> lazy \<lparr>shape = [2, 2, 2], dtype = Float16, flat = [1, 2, 3, 4, 5, 6, 7, 8 :: nat], lazy = True\<rparr>"
  using run_single run_pair
    reader_function_materialize [OF run_single] reader_function_materialize [OF run_pair]
  by auto

text \<open>
  C5. In every call of \<open>reader_function\<close> that returns, with the results of the tasks
  gathered in any order, the metadata comes from the first result after sorting, that of
  the first path: when the dimension ordering of its reader has the channel dimension at
  position \<open>k\<close> (its first occurrence, which \<open>str.index\<close> returns), \<open>channel_axis\<close> is
  \<open>k + 1\<close> and \<open>name\<close> is the list of channel names of that reader; when the ordering has no
  channel dimension, \<open>channel_axis\<close> and \<open>name\<close> are \<open>None\<close>.
\<close>

theorem metadata_from_first_reader:
  assumes ok: "snd (reader_function env path compute processes) = Inr res"
    and perm: "\<And>rs. mset (gather_order env rs) = mset rs"
  shows "\<exists>rc reader arr meta.
           determine_reader env (hd (standardize path)) = Inr rc
         \<and> ReaderClass_init env rc (hd (standardize path))
               (Some [Dimensions_SpatialY, Dimensions_SpatialX]) = Inr reader
         \<and> res = [(arr, meta)]
         \<and> (\<forall>k. k < length (dims reader) \<and> dims reader ! k = Dimensions_Channel
                  \<and> (\<forall>j<k. dims reader ! j \<noteq> Dimensions_Channel)
               \<longrightarrow> meta ''channel_axis'' = Some (PyInt (int k + 1))
                 \<and> meta ''name'' = Some (PyStrList (get_channel_names reader)))
         \<and> (Dimensions_Channel \<notin> set (dims reader)
               \<longrightarrow> meta ''channel_axis'' = Some PyNone \<and> meta ''name'' = Some PyNone)"
proof -
  let ?paths = "standardize path"
  from reader_function_returns [OF ok perm] obtain rc outs arr meta where
    ne: "?paths \<noteq> []"
    and rc: "determine_reader env (hd ?paths) = Inr rc"
    and nth: "\<forall>i<length ?paths. task_result env ?paths rc i = Inr (outs ! i)"
    and res: "res = [(arr, meta)]"
    and name: "meta ''name'' = Some (case channel_names (outs ! 0) of
                                       None \<Rightarrow> PyNone | Some ns \<Rightarrow> PyStrList ns)"
    and axis: "meta ''channel_axis'' = Some (case channel_axis (outs ! 0) of
                                       None \<Rightarrow> PyNone | Some k \<Rightarrow> PyInt (int k + 1))"
    by blast
  from ne have "0 < length ?paths" by simp
  with nth have "task_result env ?paths rc 0 = Inr (outs ! 0)" by blast
  from first_task_reader [OF this ne] obtain reader where
    rd: "ReaderClass_init env rc (hd ?paths) (Some [Dimensions_SpatialY, Dimensions_SpatialX])
           = Inr reader"
    and none: "Dimensions_Channel \<notin> set (dims reader)
                 \<Longrightarrow> channel_axis (outs ! 0) = None \<and> channel_names (outs ! 0) = None"
    and some: "Dimensions_Channel \<in> set (dims reader)
                 \<Longrightarrow> py_index (dims reader) Dimensions_Channel = Inr (the (channel_axis (outs ! 0)))
                   \<and> channel_axis (outs ! 0) \<noteq> None
                   \<and> channel_names (outs ! 0) = Some (get_channel_names reader)"
    by blast
  have a: "meta ''channel_axis'' = Some (PyInt (int k + 1))
           \<and> meta ''name'' = Some (PyStrList (get_channel_names reader))"
    if k: "k < length (dims reader)" "dims reader ! k = Dimensions_Channel"
      "\<forall>j<k. dims reader ! j \<noteq> Dimensions_Channel" for k
  proof -
    from k have mem: "Dimensions_Channel \<in> set (dims reader)"
      by (metis nth_mem)
    from py_index_first [OF k] some [OF mem] have "channel_axis (outs ! 0) = Some k"
      by auto
    with some [OF mem] name axis show ?thesis by simp
  qed
  have b: "meta ''channel_axis'' = Some PyNone \<and> meta ''name'' = Some PyNone"
    if "Dimensions_Channel \<notin> set (dims reader)"
    using none [OF that] name axis by simp
  from rc rd res a b show ?thesis by blast
qed

theorem metadata_from_first_reader_witness:
  "snd (reader_function tiff_env (PathStr ''a.tiff'') True False)
     = Inr [(\<lparr>shape = [1, 2, 2], dtype = Float16, flat = [1, 2, 3, 4], lazy = False\<rparr>, dna_meta)]
   \<and> (\<forall>rs. mset (gather_order tiff_env rs) = mset rs)
   \<and> dna_meta ''channel_axis'' = Some (PyInt 3)
   \<and> dna_meta ''name'' = Some (PyStrList [''dna''])
   \<and> snd (reader_function tiff_env (PathStr ''plane.png'') False False)
     = Inr [(\<lparr>shape = [1, 2, 2], dtype = Float16, flat = [9, 8, 7, 6], lazy = True\<rparr>, plain_meta)]
   \<and> plain_meta ''channel_axis'' = Some PyNone
   \<and> plain_meta ''name'' = Some PyNone"
proof -
  from metadata_from_first_reader [OF run_single tiff_env_perm]
  obtain rc reader where
    rd: "ReaderClass_init tiff_env rc (hd (standardize (PathStr ''a.tiff'')))
           (Some [Dimensions_SpatialY, Dimensions_SpatialX]) = Inr reader"
    and ch: "\<forall>k. k < length (dims reader) \<and> dims reader ! k = Dimensions_Channel
                  \<and> (\<forall>j<k. dims reader ! j \<noteq> Dimensions_Channel)
               \<longrightarrow> dna_meta ''channel_axis'' = Some (PyInt (int k + 1))
                 \<and> dna_meta ''name'' = Some (PyStrList (get_channel_names reader))"
    by auto
  from rd have reader: "dims reader = ''STCZYX''" "get_channel_names reader = [''dna'']"
    by (auto simp: tiff_env_def)
  have "\<forall>j<2. ''STCZYX'' ! j \<noteq> CHR ''C''"
    by (simp add: less_2_cases_iff)
  with ch [rule_format, of 2] reader
  have a: "dna_meta ''channel_axis'' = Some (PyInt 3) \<and> dna_meta ''name'' = Some (PyStrList [''dna''])"
    by (simp add: Dimensions_Channel_def)
  from metadata_from_first_reader [OF run_plane tiff_env_perm]
  obtain rc' reader' where
    rd': "ReaderClass_init tiff_env rc' (hd (standardize (PathStr ''plane.png'')))
           (Some [Dimensions_SpatialY, Dimensions_SpatialX]) = Inr reader'"
    and no: "Dimensions_Channel \<notin> set (dims reader')
               \<longrightarrow> plain_meta ''channel_axis'' = Some PyNone \<and> plain_meta ''name'' = Some PyNone"
    by auto
  from rd' have "dims reader' = ''YX''"
    by (auto simp: tiff_env_def)
  with no have b: "plain_meta ''channel_axis'' = Some PyNone \<and> plain_meta ''name'' = Some PyNone"
    by (simp add: Dimensions_Channel_def)
  from a b run_single run_plane tiff_env_perm show ?thesis by simp
qed

text \<open>
  C4, as stated, fails: the stacking axis is a dimension of the returned array, and for a
  single path its length is one. The single-plane single-channel file \<open>a.tiff\<close>, of shape
  \<open>(1, 1, 1, 1, 2, 2)\<close>, comes back with shape \<open>(1, 2, 2)\<close>.
\<close>

theorem single_path_keeps_unit_axis:
  "map_sum id (map (shape \<circ> fst)) (snd (reader_function tiff_env (PathStr ''a.tiff'') True False))
     = Inr [[1, 2, 2]]"
  by (simp add: run_single)

text \<open>
  C4, amended. In every call of \<open>reader_function\<close> over \<open>N\<close> paths that returns, with the
  results gathered in any order, the element type of the returned array is half precision
  and its shape is \<open>N\<close> followed by the shape of the first path's data without its axes of
  length one: no axis after the stacking axis has length one, and the array has an axis of
  length one exactly when \<open>N = 1\<close>.
\<close>

theorem stacked_dtype_and_shape:
  assumes ok: "snd (reader_function env path compute processes) = Inr res"
    and perm: "\<And>rs. mset (gather_order env rs) = mset rs"
  shows "\<exists>rc reader arr meta.
           determine_reader env (hd (standardize path)) = Inr rc
         \<and> ReaderClass_init env rc (hd (standardize path))
               (Some [Dimensions_SpatialY, Dimensions_SpatialX]) = Inr reader
         \<and> res = [(arr, meta)]
         \<and> dtype arr = Float16
         \<and> shape arr = length (standardize path) # filter (\<lambda>d. d \<noteq> 1) (shape (dask_data reader))
         \<and> 1 \<notin> set (tl (shape arr))
         \<and> (1 \<in> set (shape arr) \<longleftrightarrow> length (standardize path) = 1)"
proof -
  let ?paths = "standardize path"
  from reader_function_returns [OF ok perm] obtain rc outs stacked meta where
    ne: "?paths \<noteq> []"
    and rc: "determine_reader env (hd ?paths) = Inr rc"
    and len: "length outs = length ?paths"
    and nth: "\<forall>i<length ?paths. task_result env ?paths rc i = Inr (outs ! i)"
    and st: "da_stack (map data outs) = Inr stacked"
    and res: "res = [(if compute then compute_array stacked else stacked, meta)]"
    by blast
  let ?arr = "if compute then compute_array stacked else stacked"
  from ne have "0 < length ?paths" by simp
  with nth have "task_result env ?paths rc 0 = Inr (outs ! 0)" by blast
  from first_task_reader [OF this ne] obtain reader where
    rd: "ReaderClass_init env rc (hd ?paths) (Some [Dimensions_SpatialY, Dimensions_SpatialX])
           = Inr reader"
    and d0: "data (outs ! 0) = squeeze (astype (float16 env) Float16 (dask_data reader))"
    by blast
  from ne len have "outs \<noteq> []" by auto
  then have hd0: "hd (map data outs) = data (outs ! 0)"
    by (simp add: hd_conv_nth hd_map)
  have dt: "dtype ?arr = Float16"
    using da_stack_Inr(4) [OF st] hd0 d0
    by (simp add: compute_array_def squeeze_def astype_def)
  have sh: "shape ?arr = length ?paths # filter (\<lambda>d. d \<noteq> 1) (shape (dask_data reader))"
    using da_stack_Inr(3) [OF st] hd0 d0 len
    by (simp add: compute_array_def squeeze_def astype_def)
  have "1 \<notin> set (tl (shape ?arr))" unfolding sh by simp
  moreover have "1 \<in> set (shape ?arr) \<longleftrightarrow> length ?paths = 1" unfolding sh by auto
  ultimately show ?thesis using rc rd res dt sh by blast
qed

theorem stacked_dtype_and_shape_witness:
  "snd (reader_function tiff_env (PathList [''a.tiff'', ''b.tiff'']) False True)
     = Inr [(\<lparr>shape = [2, 2, 2], dtype = Float16, flat = [1, 2, 3, 4, 5, 6, 7, 8], lazy = True\<rparr>,
             dna_meta)]
   \<and> (\<forall>rs. mset (gather_order tiff_env rs) = mset rs)
   \<and> 1 \<notin> set (shape \<lparr>shape = [2, 2, 2], dtype = Float16,
                       flat = [1, 2, 3, 4, 5, 6, 7, 8 :: nat], lazy = True\<rparr>)"
  using run_pair tiff_env_perm stacked_dtype_and_shape [OF run_pair tiff_env_perm]
  by auto

text \<open>
  C2. In every call of \<open>reader_function\<close> over \<open>N\<close> paths that returns, whatever permutation
  of the results \<open>client.gather\<close> hands back, the leading axis of the returned array has
  length \<open>N\<close>, and for every \<open>i < N\<close> the sub-array at position \<open>i\<close> of that axis has the
  shape, the element type and the elements of the data that the task of the path at
  position \<open>i\<close> returned. The arrays of the readers hold as many elements as their shapes
  say.
\<close>

theorem stacking_follows_path_order:
  assumes ok: "snd (reader_function env path compute processes) = Inr res"
    and perm: "\<And>rs. mset (gather_order env rs) = mset rs"
    and wf: "\<And>rc p ch reader. ReaderClass_init env rc p ch = Inr reader
               \<Longrightarrow> wf_array (dask_data reader)"
  shows "\<exists>rc arr meta.
           determine_reader env (hd (standardize path)) = Inr rc
         \<and> res = [(arr, meta)]
         \<and> shape arr \<noteq> []
         \<and> hd (shape arr) = length (standardize path)
         \<and> (\<forall>i<length (standardize path).
               \<exists>r. task_result env (standardize path) rc i = Inr r
                 \<and> shape (plane arr i) = shape (data r)
                 \<and> dtype (plane arr i) = dtype (data r)
                 \<and> flat (plane arr i) = flat (data r))"
proof -
  let ?paths = "standardize path"
  from reader_function_returns [OF ok perm] obtain rc outs stacked meta where
    ne: "?paths \<noteq> []"
    and rc: "determine_reader env (hd ?paths) = Inr rc"
    and len: "length outs = length ?paths"
    and nth: "\<forall>i<length ?paths. task_result env ?paths rc i = Inr (outs ! i)"
    and st: "da_stack (map data outs) = Inr stacked"
    and res: "res = [(if compute then compute_array stacked else stacked, meta)]"
    by blast
  let ?arr = "if compute then compute_array stacked else stacked"
  let ?sh = "shape (hd (map data outs))"
  let ?m = "prod_list ?sh"
  have sh: "shape ?arr = length ?paths # ?sh"
    using da_stack_Inr(3) [OF st] len by (simp add: compute_array_def)
  have fl: "flat ?arr = concat (map flat (map data outs))"
    using da_stack_Inr(5) [OF st] by (simp add: compute_array_def)
  have dt: "dtype ?arr = dtype (hd (map data outs))"
    using da_stack_Inr(4) [OF st] by (simp add: compute_array_def)
  from ne len have outs_ne: "outs \<noteq> []" by auto
  have each: "shape (data (outs ! i)) = ?sh \<and> length (flat (data (outs ! i))) = ?m
              \<and> dtype (data (outs ! i)) = Float16" if i: "i < length ?paths" for i
  proof -
    from i len have "data (outs ! i) \<in> set (map data outs)" by simp
    with da_stack_Inr(2) [OF st] have s: "shape (data (outs ! i)) = ?sh" by blast
    from nth i have t: "task_result env ?paths rc i = Inr (outs ! i)" by blast
    from load_image_wf [OF t wf] s show ?thesis by (simp add: wf_array_def)
  qed
  have all_len: "\<forall>xs\<in>set (map flat (map data outs)). length xs = ?m"
  proof
    fix xs assume "xs \<in> set (map flat (map data outs))"
    then obtain i where "i < length outs" "xs = flat (data (outs ! i))"
      by (auto simp: in_set_conv_nth)
    with each [of i] len show "length xs = ?m" by simp
  qed
  have dt16: "dtype ?arr = Float16"
  proof -
    from ne have "0 < length ?paths" by simp
    from each [OF this] dt outs_ne show ?thesis by (simp add: hd_conv_nth)
  qed
  have planes: "\<exists>r. task_result env ?paths rc i = Inr r
                 \<and> shape (plane ?arr i) = shape (data r)
                 \<and> dtype (plane ?arr i) = dtype (data r)
                 \<and> flat (plane ?arr i) = flat (data r)" if i: "i < length ?paths" for i
  proof -
    from nth i have t: "task_result env ?paths rc i = Inr (outs ! i)" by blast
    from i len have il: "i < length (map flat (map data outs))" by simp
    have "flat (plane ?arr i) = take ?m (drop (i * ?m) (concat (map flat (map data outs))))"
      using sh fl by (simp add: plane_def)
    also have "\<dots> = map flat (map data outs) ! i"
      by (rule concat_plane [OF all_len il])
    also have "\<dots> = flat (data (outs ! i))" using i len by simp
    finally have f: "flat (plane ?arr i) = flat (data (outs ! i))" .
    have s: "shape (plane ?arr i) = shape (data (outs ! i))"
      using sh each [OF i] by (simp add: plane_def)
    have d: "dtype (plane ?arr i) = dtype (data (outs ! i))"
      using dt16 each [OF i] by (simp add: plane_def)
    from t f s d show ?thesis by blast
  qed
  have "shape ?arr \<noteq> []" "hd (shape ?arr) = length ?paths" using sh by simp_all
  with rc res planes show ?thesis by blast
qed

theorem stacking_follows_path_order_witness:
  "snd (reader_function tiff_env (PathList [''a.tiff'', ''b.tiff'']) False True)
     = Inr [(\<lparr>shape = [2, 2, 2], dtype = Float16, flat = [1, 2, 3, 4, 5, 6, 7, 8], lazy = True\<rparr>,
             dna_meta)]
   \<and> (\<forall>rs. mset (gather_order tiff_env rs) = mset rs)
   \<and> wf_array (img [1, 1, 1, 1, 2, 2] [1, 2, 3, 4])
   \<and> wf_array (img [1, 1, 1, 1, 2, 2] [5, 6, 7, 8])
   \<and> gather_order tiff_env = rev
   \<and> flat (plane \<lparr>shape = [2, 2, 2], dtype = Float16,
                   flat = [1, 2, 3, 4, 5, 6, 7, 8 :: nat], lazy = True\<rparr> 0) = [1, 2, 3, 4]
   \<and> flat (plane \<lparr>shape = [2, 2, 2], dtype = Float16,
                   flat = [1, 2, 3, 4, 5, 6, 7, 8 :: nat], lazy = True\<rparr> 1) = [5, 6, 7, 8]"
proof -
  have wf: "wf_array (img [1, 1, 1, 1, 2, 2] [1, 2, 3, 4])"
    "wf_array (img [1, 1, 1, 1, 2, 2] [5, 6, 7, 8])"
    by (simp_all add: wf_array_def img_def)
  have g: "gather_order tiff_env = rev" by (simp add: tiff_env_def)
  from stacking_follows_path_order [OF run_pair tiff_env_perm tiff_env_wf]
  have "hd (shape \<lparr>shape = [2, 2, 2], dtype = Float16,
                    flat = [1, 2, 3, 4, 5, 6, 7, 8 :: nat], lazy = True\<rparr>) = 2"
    by auto
  then show ?thesis using run_pair tiff_env_perm wf g
    by (simp add: plane_def)
qed

end
